theory Spec2Isabelle
  imports Complex_Main "HOL-Library.Sublist"
begin

section \<open>Strings\<close>

text \<open>
  A Python \<open>str\<close> is a sequence of code points; a \<open>char\<close> here is a code point below
  256. On that range \<open>str.isspace\<close> holds for 9..13, 28..32, 133 and 160, and
  \<open>str.lower\<close> moves A..Z and the capital letters 192..222 (but not the sign 215)
  up by 32 and leaves every other code point alone.
\<close>

definition is_space :: "char \<Rightarrow> bool" where
  "is_space c = (let n = (of_char c :: nat) in
     (9 \<le> n \<and> n \<le> 13) \<or> (28 \<le> n \<and> n \<le> 32) \<or> n = 133 \<or> n = 160)"

definition lower_char :: "char \<Rightarrow> char" where
  "lower_char c = (let n = (of_char c :: nat) in
     if (65 \<le> n \<and> n \<le> 90) \<or> (192 \<le> n \<and> n \<le> 222 \<and> n \<noteq> 215)
     then char_of (n + 32) else c)"

definition lower :: "string \<Rightarrow> string" where
  "lower s = map lower_char s"

definition strip :: "string \<Rightarrow> string" where
  "strip s = rev (dropWhile is_space (rev (dropWhile is_space s)))"

text \<open>\<open>s.split(sep)\<close> for a one-character separator: never the empty list.\<close>

fun split_on :: "char \<Rightarrow> string \<Rightarrow> string list" where
  "split_on sep [] = [[]]"
| "split_on sep (c # cs) =
     (if c = sep then [] # split_on sep cs
      else (case split_on sep cs of
              [] \<Rightarrow> [[c]]
            | p # ps \<Rightarrow> (c # p) # ps))"

text \<open>\<open>needle in haystack\<close> on strings: the needle occurs as a contiguous run.\<close>

fun str_in :: "string \<Rightarrow> string \<Rightarrow> bool" where
  "str_in needle [] = (needle = [])"
| "str_in needle (h # hs) = (prefix needle (h # hs) \<or> str_in needle hs)"

section \<open>Configuration, environment, effects\<close>

text \<open>
  The values \<open>self.config['DEFAULT'].get(...)\<close> delivers; the configuration never
  changes after it is loaded. \<open>monitor()\<close> reads \<open>excluded_desktops\<close> and \<open>command\<close>
  before anything else happens, so a configuration whose values cannot be read (an
  interpolation error) ends the program there, and the later reads of the same keys
  succeed; these two are plain strings here. \<open>debounce_delay\<close> is read only when an
  event is handled: it holds the result of \<open>float(...)\<close> on the configured text, a
  finite number, or \<open>None\<close> where the read or \<open>float\<close> raises (\<open>ValueError\<close>). The
  field \<open>last_event_time\<close> of the class is never read and is left out.
\<close>

record config =
  command :: string
  excluded_desktops :: string
  debounce_delay :: "real option"

definition default_config :: config where
  "default_config =
     \<lparr>command = ''autorandr -c'',
      excluded_desktops = ''COSMIC,GNOME,KDE,Plasma,XFCE,X-Cinnamon'',
      debounce_delay = Some 2\<rparr>"

type_synonym environ = "string \<rightharpoonup> string"

datatype exn = TimeoutExpired | ValueError | OtherException string

datatype level = DEBUG | INFO | WARNING | ERROR

datatype message =
    DetectedDesktop string string
  | NoDesktopDetected
  | DesktopExcluded string
  | ExecutingCommand string
  | CommandSucceeded
  | CommandOutput string
  | CommandFailed int
  | CommandStderr string
  | CommandTimedOut
  | ErrorExecuting exn
  | WaitingForDisplays
  | DetectedDisplays nat real
  | FinishedWaiting real
  | DeviceEvent string string
  | ExcludedExiting
  | StartingMonitor
  | CommandToExecute string
  | Monitoring
  | ReceivedInterrupt
  | ErrorInLoop exn

text \<open>
  What a thread does to the outside, in order: a call on the logger, a sleep, opening a
  udev context, one enumeration of the drm devices, a command handed to the shell,
  opening the netlink monitor.
\<close>

datatype effect =
    Log level message
  | Sleep real
  | OpenContext
  | ListDevices
  | Spawn string
  | OpenMonitor

fun add_effects :: "effect list \<Rightarrow> 'a \<times> effect list \<Rightarrow> 'a \<times> effect list" where
  "add_effects pre (r, tr) = (r, pre @ tr)"

section \<open>Exclusion policy\<close>

fun first_desktop :: "environ \<Rightarrow> string list \<Rightarrow> string option \<times> effect list" where
  "first_desktop env [] = (None, [Log DEBUG NoDesktopDetected])"
| "first_desktop env (var # vars) =
     (let desktop = strip (case env var of None \<Rightarrow> [] | Some v \<Rightarrow> v) in
      if desktop \<noteq> [] then (Some desktop, [Log DEBUG (DetectedDesktop var desktop)])
      else first_desktop env vars)"

definition get_desktop_environment :: "environ \<Rightarrow> string option \<times> effect list" where
  "get_desktop_environment env =
     first_desktop env [''XDG_CURRENT_DESKTOP'', ''XDG_SESSION_DESKTOP'', ''DESKTOP_SESSION'']"

definition excluded_list :: "config \<Rightarrow> string list" where
  "excluded_list cfg =
     map (\<lambda>d. lower (strip d))
       (filter (\<lambda>d. strip d \<noteq> []) (split_on CHR '','' (excluded_desktops cfg)))"

fun match_excluded :: "string \<Rightarrow> string \<Rightarrow> string list \<Rightarrow> bool \<times> effect list" where
  "match_excluded desktop desktop_lower [] = (False, [])"
| "match_excluded desktop desktop_lower (excluded_de # rest) =
     (if str_in excluded_de desktop_lower \<or> str_in desktop_lower excluded_de
      then (True, [Log INFO (DesktopExcluded desktop)])
      else match_excluded desktop desktop_lower rest)"

definition is_desktop_excluded :: "environ \<Rightarrow> config \<Rightarrow> bool \<times> effect list" where
  "is_desktop_excluded env cfg =
     (case get_desktop_environment env of
        (None, tr) \<Rightarrow> (False, tr)
      | (Some desktop, tr) \<Rightarrow>
          if desktop = [] then (False, tr)
          else add_effects tr (match_excluded desktop (lower desktop) (excluded_list cfg)))"

section \<open>Action trigger\<close>

record completed =
  returncode :: int
  stdout :: string
  stderr :: string

text \<open>
  \<open>subprocess.run(command, shell=True, capture_output=True, text=True, timeout=30)\<close>:
  the shell is a parameter giving, for a command, the exception raised
  (\<open>TimeoutExpired\<close> once the 30 seconds are over) or the completed process.
\<close>

type_synonym shell = "string \<Rightarrow> exn + completed"

text \<open>The body of the \<open>try\<close> block.\<close>

definition run_and_report :: "shell \<Rightarrow> string \<Rightarrow> (exn + unit) \<times> effect list" where
  "run_and_report sh cmd =
     (case sh cmd of
        Inl e \<Rightarrow> (Inl e, [Spawn cmd])
      | Inr result \<Rightarrow>
          (Inr (),
           Spawn cmd #
           (if returncode result = 0
            then Log INFO CommandSucceeded #
                 (if stdout result \<noteq> [] then [Log DEBUG (CommandOutput (stdout result))] else [])
            else Log WARNING (CommandFailed (returncode result)) #
                 (if stderr result \<noteq> [] then [Log WARNING (CommandStderr (stderr result))] else []))))"

text \<open>
  The result is the exception that leaves \<open>_execute_command\<close>, \<open>None\<close> for a normal
  return. The two handlers are \<open>except subprocess.TimeoutExpired\<close> and
  \<open>except Exception\<close>, in this order.
\<close>

definition execute_command :: "environ \<Rightarrow> config \<Rightarrow> shell \<Rightarrow> exn option \<times> effect list" where
  "execute_command env cfg sh =
     (case is_desktop_excluded env cfg of
        (True, tr) \<Rightarrow> (None, tr)
      | (False, tr) \<Rightarrow>
          (let cmd = command cfg in
           case run_and_report sh cmd of
             (Inr u, tr') \<Rightarrow> (None, tr @ Log INFO (ExecutingCommand cmd) # tr')
           | (Inl TimeoutExpired, tr') \<Rightarrow>
               (None, tr @ Log INFO (ExecutingCommand cmd) # tr' @ [Log ERROR CommandTimedOut])
           | (Inl e, tr') \<Rightarrow>
               (None, tr @ Log INFO (ExecutingCommand cmd) # tr' @ [Log ERROR (ErrorExecuting e)])))"

section \<open>Readiness prober\<close>

text \<open>
  A pyudev device as the program reads it. \<open>status_attr\<close> is what
  \<open>device.attributes.asstring('status')\<close> does: the exception it raises or the text.
\<close>

record device =
  action :: "string option"
  sys_name :: string
  device_type :: "string option"
  available_attributes :: "string list"
  status_attr :: "exn + string"

text \<open>The \<open>for device in context.list_devices(subsystem='drm')\<close> loop, with its counter \<open>connected\<close> (here \<open>cnt\<close>).\<close>

fun scan :: "device list \<Rightarrow> nat \<Rightarrow> nat" where
  "scan [] cnt = cnt"
| "scan (d # ds) cnt =
     scan ds
       (if str_in ''card'' (sys_name d) \<and> ''status'' \<in> set (available_attributes d)
        then (case status_attr d of
                Inl e \<Rightarrow> cnt
              | Inr status \<Rightarrow> if status = ''connected'' then cnt + 1 else cnt)
        else cnt)"

text \<open>
  A connector that reports a display: a device of a card (its name contains \<open>card\<close>)
  that has a status attribute whose text reads \<open>connected\<close>.
\<close>

definition reports_connected :: "device \<Rightarrow> bool" where
  "reports_connected d =
     (str_in ''card'' (sys_name d) \<and> ''status'' \<in> set (available_attributes d)
      \<and> status_attr d = Inr ''connected'')"

text \<open>
  The waiting times are the source's floating-point literals read as exact decimals. In
  binary floating point the repeated addition of 0.2 to 1.0 passes 5.0 at the same step,
  the twentieth, so the number of polls is the same.
\<close>

definition max_wait :: real where
  "max_wait = 5"

definition check_interval :: real where
  "check_interval = 2 / 10"

text \<open>
  The \<open>while waited < max_wait\<close> loop. \<open>world k\<close> is what the enumeration yields at
  the poll number \<open>k\<close> (counted from 0).
\<close>

function poll_until_ready :: "(nat \<Rightarrow> device list) \<Rightarrow> nat \<Rightarrow> real \<Rightarrow> bool \<times> effect list" where
  "poll_until_ready world k waited =
     (if waited < max_wait then
        (if scan (world k) 0 > 0
         then (True, [ListDevices, Log DEBUG (DetectedDisplays (scan (world k) 0) waited)])
         else add_effects [ListDevices, Sleep check_interval]
                (poll_until_ready world (Suc k) (waited + check_interval)))
      else (True, [Log DEBUG (FinishedWaiting waited)]))"
  by pat_completeness auto
termination
proof (relation "measure (\<lambda>(world, k, waited). nat \<lceil>(max_wait - waited) / check_interval\<rceil>)")
  show "wf (measure (\<lambda>(world, k, waited). nat \<lceil>(max_wait - waited) / check_interval\<rceil>))"
    by simp
next
  fix world :: "nat \<Rightarrow> device list" and k :: nat and waited :: real
  assume w: "waited < max_wait"
  have step: "(max_wait - (waited + check_interval)) / check_interval
                = (max_wait - waited) / check_interval - 1"
    by (simp add: check_interval_def field_simps)
  have pos: "0 < (max_wait - waited) / check_interval"
    using w by (simp add: check_interval_def)
  then have "0 < \<lceil>(max_wait - waited) / check_interval\<rceil>"
    by (simp add: ceiling_less_iff)
  then show "((world, Suc k, waited + check_interval), (world, k, waited))
               \<in> measure (\<lambda>(world, k, waited). nat \<lceil>(max_wait - waited) / check_interval\<rceil>)"
    by (simp add: step)
qed

declare poll_until_ready.simps [simp del]

definition wait_for_displays_ready :: "(nat \<Rightarrow> device list) \<Rightarrow> bool \<times> effect list" where
  "wait_for_displays_ready world =
     add_effects [Log DEBUG WaitingForDisplays, Sleep 1, OpenContext]
       (poll_until_ready world 0 (0 + 1))"

text \<open>The seconds slept in a trace, and one unsuccessful poll followed by its sleep.\<close>

fun slept :: "effect list \<Rightarrow> real" where
  "slept [] = 0"
| "slept (Sleep s # tr) = s + slept tr"
| "slept (e # tr) = slept tr"

definition poll_round :: "effect list" where
  "poll_round = [ListDevices, Sleep check_interval]"

text \<open>
  The commands handed to the shell in a trace, the messages logged at a level, and the
  number of enumerations of the devices.
\<close>

fun spawned :: "effect list \<Rightarrow> string list" where
  "spawned [] = []"
| "spawned (Spawn c # tr) = c # spawned tr"
| "spawned (e # tr) = spawned tr"

fun logged :: "level \<Rightarrow> effect list \<Rightarrow> message list" where
  "logged l [] = []"
| "logged l (Log l' m # tr) = (if l' = l then m # logged l tr else logged l tr)"
| "logged l (e # tr) = logged l tr"

fun probes :: "effect list \<Rightarrow> nat" where
  "probes [] = 0"
| "probes (ListDevices # tr) = Suc (probes tr)"
| "probes (e # tr) = probes tr"

text \<open>The callback \<open>execute_with_wait\<close> the timer runs on its own thread.\<close>

definition execute_with_wait ::
  "environ \<Rightarrow> config \<Rightarrow> (nat \<Rightarrow> device list) \<Rightarrow> shell \<Rightarrow> exn option \<times> effect list" where
  "execute_with_wait env cfg world sh =
     add_effects (snd (wait_for_displays_ready world)) (execute_command env cfg sh)"

section \<open>Debounce coordinator\<close>

text \<open>
  A \<open>threading.Timer\<close> started at some time with an interval and a callback. Its
  thread waits on the \<open>finished\<close> flag for the interval and calls the callback if the
  flag is still clear then; an interval that is not positive is no wait at all.
  \<open>cancel()\<close> sets the flag, which stops a timer that is still waiting and does nothing
  to one whose callback has begun. An interval above \<open>threading.TIMEOUT_MAX\<close> cannot
  be waited for: the wait raises \<open>OverflowError\<close> in the timer's thread, the thread
  dies and the callback is never called. The timers are kept in the order they were
  created; \<open>debounce_timer\<close> refers to one of them by its position.
\<close>

datatype timer_status = Waiting | Cancelled | Fired | Died

text \<open>The functions the program hands to a timer: there is one.\<close>

datatype callback = ExecuteWithWait

record timer =
  deadline :: real
  status :: timer_status
  callback :: callback

record coordinator =
  timers :: "timer list"
  debounce_timer :: "nat option"

definition init_coordinator :: coordinator where
  "init_coordinator = \<lparr>timers = [], debounce_timer = None\<rparr>"

text \<open>
  \<open>threading.TIMEOUT_MAX\<close>, in seconds, on a 64-bit Linux. Above it and below
  \<open>2\<^sup>6\<^sup>3\<close> nanoseconds, a band of less than a second, CPython still waits where
  the library's documentation promises the error; \<open>start_timer\<close> follows the
  documentation, and \<open>reachable\<close> below has both behaviours.
\<close>

definition timeout_max :: real where
  "timeout_max = 9223372036"

definition timer_cancel :: "nat \<Rightarrow> coordinator \<Rightarrow> coordinator" where
  "timer_cancel i c =
     (if i < length (timers c) \<and> status (timers c ! i) = Waiting
      then c\<lparr>timers := (timers c)[i := (timers c ! i)\<lparr>status := Cancelled\<rparr>]\<rparr>
      else c)"

text \<open>The thread of a timer finds its flag clear when the wait is over, and calls the callback.\<close>

definition timer_fire :: "nat \<Rightarrow> coordinator \<Rightarrow> coordinator" where
  "timer_fire i c =
     (if i < length (timers c) \<and> status (timers c ! i) = Waiting
      then c\<lparr>timers := (timers c)[i := (timers c ! i)\<lparr>status := Fired\<rparr>]\<rparr>
      else c)"

text \<open>The thread of a timer dies in its wait.\<close>

definition timer_die :: "nat \<Rightarrow> coordinator \<Rightarrow> coordinator" where
  "timer_die i c =
     (if i < length (timers c) \<and> status (timers c ! i) = Waiting
      then c\<lparr>timers := (timers c)[i := (timers c ! i)\<lparr>status := Died\<rparr>]\<rparr>
      else c)"

text \<open>\<open>if self.debounce_timer: self.debounce_timer.cancel()\<close>\<close>

definition cancel_pending :: "coordinator \<Rightarrow> coordinator" where
  "cancel_pending c = (case debounce_timer c of None \<Rightarrow> c | Some i \<Rightarrow> timer_cancel i c)"

text \<open>
  \<open>self.debounce_timer = Timer(delay, execute_with_wait); self.debounce_timer.start()\<close>:
  \<open>new_timer\<close> is the timer object stored in the field with its thread started,
  \<open>start_timer\<close> adds what the thread does at once with an interval it cannot wait for.
\<close>

definition new_timer :: "real \<Rightarrow> real \<Rightarrow> coordinator \<Rightarrow> coordinator" where
  "new_timer now delay c =
     c\<lparr>timers := timers c @
                  [\<lparr>deadline = now + max 0 delay, status = Waiting, callback = ExecuteWithWait\<rparr>],
       debounce_timer := Some (length (timers c))\<rparr>"

definition start_timer :: "real \<Rightarrow> real \<Rightarrow> coordinator \<Rightarrow> coordinator" where
  "start_timer now delay c =
     (if timeout_max < delay then timer_die (length (timers c)) (new_timer now delay c)
      else new_timer now delay c)"

text \<open>
  \<open>_debounced_execute\<close>, called at the time \<open>now\<close>: the exception it raises, if any
  (\<open>float\<close> on the configured delay), and the coordinator it leaves.
\<close>

definition debounced_execute :: "real \<Rightarrow> config \<Rightarrow> coordinator \<Rightarrow> exn option \<times> coordinator" where
  "debounced_execute now cfg c =
     (let c1 = cancel_pending c in
      case debounce_delay cfg of
        None \<Rightarrow> (Some ValueError, c1)
      | Some delay \<Rightarrow> (None, start_timer now delay c1))"

text \<open>
  Time passing up to \<open>t\<close>: every timer still waiting whose deadline has come calls its
  callback. \<open>quiesce\<close> lets all the time pass.
\<close>

definition advance :: "real \<Rightarrow> coordinator \<Rightarrow> coordinator" where
  "advance t c =
     c\<lparr>timers := map (\<lambda>tm. if status tm = Waiting \<and> deadline tm \<le> t
                              then tm\<lparr>status := Fired\<rparr> else tm) (timers c)\<rparr>"

definition quiesce :: "coordinator \<Rightarrow> coordinator" where
  "quiesce c =
     c\<lparr>timers := map (\<lambda>tm. if status tm = Waiting then tm\<lparr>status := Fired\<rparr> else tm) (timers c)\<rparr>"

text \<open>
  The callbacks that were called, each with the time of the call (the deadline of its
  timer), and the timers still waiting.
\<close>

definition attempts :: "coordinator \<Rightarrow> (real \<times> callback) list" where
  "attempts c = map (\<lambda>tm. (deadline tm, callback tm)) (filter (\<lambda>tm. status tm = Fired) (timers c))"

definition waiting :: "coordinator \<Rightarrow> timer list" where
  "waiting c = filter (\<lambda>tm. status tm = Waiting) (timers c)"



text \<open>
  Events handed to the coordinator at the times \<open>ts\<close>, one call of
  \<open>_debounced_execute\<close> each, the timers running in between. An exception ends the
  sequence, as it ends the monitor loop.
\<close>

fun run_events :: "config \<Rightarrow> real list \<Rightarrow> coordinator \<Rightarrow> coordinator" where
  "run_events cfg [] c = c"
| "run_events cfg (t # ts) c =
     (case debounced_execute t cfg (advance t c) of
        (None, c') \<Rightarrow> run_events cfg ts c'
      | (Some e, c') \<Rightarrow> c')"


text \<open>
  The threads interleaved: the main thread between two events (\<open>False\<close>) or inside
  \<open>_debounced_execute\<close> after the cancellation and before the new timer (\<open>True\<close>),
  and any waiting timer may reach its deadline, or die in its wait, at any moment.
\<close>

inductive reachable :: "config \<Rightarrow> bool \<times> coordinator \<Rightarrow> bool" for cfg :: config where
  start: "reachable cfg (False, init_coordinator)"
| cancel: "reachable cfg (False, c) \<Longrightarrow> reachable cfg (True, cancel_pending c)"
| arm: "reachable cfg (True, c) \<Longrightarrow> debounce_delay cfg = Some delay
          \<Longrightarrow> reachable cfg (False, new_timer now delay c)"
| fire: "reachable cfg (b, c) \<Longrightarrow> i < length (timers c) \<Longrightarrow> status (timers c ! i) = Waiting
          \<Longrightarrow> reachable cfg (b, timer_fire i c)"
| die: "reachable cfg (b, c) \<Longrightarrow> i < length (timers c) \<Longrightarrow> status (timers c ! i) = Waiting
          \<Longrightarrow> reachable cfg (b, timer_die i c)"

text \<open>
  The invariant of the coordinator: a timer that is still waiting is the one
  \<open>debounce_timer\<close> refers to.
\<close>

definition tidy :: "coordinator \<Rightarrow> bool" where
  "tidy c = (\<forall>i<length (timers c). status (timers c ! i) = Waiting \<longrightarrow> debounce_timer c = Some i)"

section \<open>Monitor loop\<close>

text \<open>
  \<open>_handle_device_event\<close>, called at the time \<open>now\<close>. \<open>device.action\<close> is \<open>None\<close>
  for a device that does not come from an event.
\<close>

definition handle_device_event ::
  "real \<Rightarrow> config \<Rightarrow> device \<Rightarrow> coordinator \<Rightarrow> (exn option \<times> coordinator) \<times> effect list" where
  "handle_device_event now cfg d c =
     (case action d of
        None \<Rightarrow> ((None, c), [])
      | Some a \<Rightarrow>
          if a \<in> set [''change'', ''add'', ''remove'']
          then (if str_in ''card'' (sys_name d) \<or> device_type d = Some ''drm_minor''
                then add_effects [Log DEBUG (DeviceEvent a (sys_name d))]
                       (debounced_execute now cfg c, [])
                else ((None, c), []))
          else ((None, c), []))"

text \<open>
  The filter as the specification words it: the action is one of add, change and remove,
  and the device is a display card (its name contains \<open>card\<close>) or a display minor.
\<close>

definition is_display_event :: "device \<Rightarrow> bool" where
  "is_display_event d =
     (action d \<in> {Some ''add'', Some ''change'', Some ''remove''}
      \<and> (str_in ''card'' (sys_name d) \<or> device_type d = Some ''drm_minor''))"

text \<open>
  What \<open>monitor.poll\<close> does at a time: it yields a device, or the user interrupts it
  (\<open>KeyboardInterrupt\<close>), or it raises another exception.
\<close>

datatype poll_result = Event real device | Interrupt real | PollError real exn

text \<open>
  How \<open>monitor()\<close> ends: it returns a status, an exception leaves it, or it stays in
  \<open>poll\<close> for ever (the list of poll results is used up).
\<close>

datatype outcome = Return int | Raise exn | Blocked

fun monitor_loop ::
  "config \<Rightarrow> poll_result list \<Rightarrow> coordinator \<Rightarrow> outcome \<times> effect list \<times> coordinator" where
  "monitor_loop cfg [] c = (Blocked, [], c)"
| "monitor_loop cfg (Event t d # ps) c =
     (case handle_device_event t cfg d (advance t c) of
        ((None, c'), tr) \<Rightarrow>
          (case monitor_loop cfg ps c' of (r, tr', c'') \<Rightarrow> (r, tr @ tr', c''))
      | ((Some e, c'), tr) \<Rightarrow> (Return 1, tr @ [Log ERROR (ErrorInLoop e)], c'))"
| "monitor_loop cfg (Interrupt t # ps) c =
     (Return 0, [Log INFO ReceivedInterrupt], cancel_pending (advance t c))"
| "monitor_loop cfg (PollError t e # ps) c =
     (Return 1, [Log ERROR (ErrorInLoop e)], advance t c)"

text \<open>
  \<open>monitor()\<close>. \<open>channel\<close> is the exception \<open>Monitor.from_netlink\<close> raises, if
  any; nothing catches it.
\<close>

definition monitor ::
  "environ \<Rightarrow> config \<Rightarrow> exn option \<Rightarrow> poll_result list \<Rightarrow> outcome \<times> effect list \<times> coordinator" where
  "monitor env cfg channel polls =
     (case is_desktop_excluded env cfg of
        (True, tr) \<Rightarrow> (Return 0, tr @ [Log INFO ExcludedExiting], init_coordinator)
      | (False, tr) \<Rightarrow>
          (let tr1 = tr @ [Log INFO StartingMonitor, Log INFO (CommandToExecute (command cfg))] in
           case channel of
             Some e \<Rightarrow> (Raise e, tr1 @ [OpenContext, OpenMonitor], init_coordinator)
           | None \<Rightarrow>
               (case monitor_loop cfg polls init_coordinator of
                  (r, tr', c) \<Rightarrow>
                    (r, tr1 @ [OpenContext, OpenMonitor, Log INFO Monitoring] @ tr', c))))"

text \<open>
  \<open>sys.exit(main())\<close>: the exit status of the process, \<open>None\<close> while it is still
  running. An exception that nothing catches ends the process with the status 1.
\<close>

definition exit_status :: "outcome \<Rightarrow> int option" where
  "exit_status r = (case r of Return n \<Rightarrow> Some n | Raise e \<Rightarrow> Some 1 | Blocked \<Rightarrow> None)"

definition main :: "environ \<Rightarrow> config \<Rightarrow> exn option \<Rightarrow> poll_result list \<Rightarrow> int option" where
  "main env cfg channel polls = exit_status (fst (monitor env cfg channel polls))"

section \<open>Sample inputs\<close>

text \<open>
  No display ever connected; a command that succeeds without output; a KDE session with
  \<open>kde\<close> as the only excluded fragment; a hotplug event of a connector and an event
  with an action the monitor ignores.
\<close>

definition no_displays :: "nat \<Rightarrow> device list" where
  "no_displays k = []"

definition shell_ok :: shell where
  "shell_ok cmd = Inr \<lparr>returncode = 0, stdout = [], stderr = []\<rparr>"

definition kde_env :: environ where
  "kde_env = [''XDG_CURRENT_DESKTOP'' \<mapsto> ''KDE'']"

definition kde_config :: config where
  "kde_config = default_config\<lparr>excluded_desktops := ''kde''\<rparr>"

definition hdmi_change :: device where
  "hdmi_change =
     \<lparr>action = Some ''change'', sys_name = ''card0-HDMI-A-1'', device_type = None,
      available_attributes = [''enabled'', ''status''], status_attr = Inr ''connected''\<rparr>"

definition card_bind :: device where
  "card_bind =
     \<lparr>action = Some ''bind'', sys_name = ''card0'', device_type = Some ''drm_minor'',
      available_attributes = [''dev'', ''uevent''], status_attr = Inl (OtherException ''KeyError'')\<rparr>"

section \<open>Facts about the string functions\<close>

lemma str_in_sublist: "str_in n h = sublist n h"
  by (induction h) (auto simp: sublist_Cons_right)

lemma split_on_not_Nil: "split_on sep s \<noteq> []"
  by (induction s) (auto split: list.splits)

lemma split_on_append:
  "split_on sep (a @ sep # b) = split_on sep a @ split_on sep b"
  by (induction a) (auto split: list.splits simp: split_on_not_Nil)

lemma split_on_absent: "sep \<notin> set s \<Longrightarrow> split_on sep s = [s]"
  by (induction s) auto

lemma dropWhile_all: "(\<forall>x \<in> set (dropWhile P s). P x) \<longleftrightarrow> (\<forall>c \<in> set s. P c)"
  by (induction s) auto

lemma strip_blank: "strip s = [] \<longleftrightarrow> (\<forall>c \<in> set s. is_space c)"
  by (simp add: strip_def dropWhile_eq_Nil_conv dropWhile_all)

lemma comma_no_space: "\<not> is_space CHR '',''"
  by code_simp

section \<open>The exclusion policy\<close>

lemma match_excluded_iff:
  "fst (match_excluded d dl es) \<longleftrightarrow> (\<exists>e \<in> set es. str_in e dl \<or> str_in dl e)"
  by (induction es) auto

lemma first_desktop_nonempty: "fst (first_desktop env vars) = Some d \<Longrightarrow> d \<noteq> []"
  by (induction vars) (auto simp: Let_def split: if_splits)

lemma get_desktop_nonempty: "fst (get_desktop_environment env) = Some d \<Longrightarrow> d \<noteq> []"
  unfolding get_desktop_environment_def by (rule first_desktop_nonempty)

lemma is_desktop_excluded_iff:
  "fst (is_desktop_excluded env cfg) \<longleftrightarrow>
     (\<exists>d. fst (get_desktop_environment env) = Some d \<and>
          (\<exists>e \<in> set (excluded_list cfg). str_in e (lower d) \<or> str_in (lower d) e))"
proof (cases "get_desktop_environment env")
  case (Pair r tr)
  show ?thesis
  proof (cases r)
    case None
    with Pair show ?thesis by (simp add: is_desktop_excluded_def)
  next
    case (Some d)
    with Pair have "d \<noteq> []"
      using get_desktop_nonempty [of env d] by simp
    with Pair Some show ?thesis
      by (cases "match_excluded d (lower d) (excluded_list cfg)")
         (use match_excluded_iff [of d "lower d" "excluded_list cfg"] in
           \<open>simp add: is_desktop_excluded_def\<close>)
  qed
qed

lemma excluded_list_nonempty: "[] \<notin> set (excluded_list cfg)"
  by (auto simp: excluded_list_def lower_def)

lemma excluded_list_blank:
  "\<forall>f \<in> set (split_on CHR '','' (excluded_desktops cfg)). strip f = [] \<Longrightarrow> excluded_list cfg = []"
  by (simp add: excluded_list_def filter_empty_conv)

text \<open>
  C5. The desktop is excluded exactly when one is detected and some configured fragment
  that is not blank, stripped and lower-cased, is a substring of the lower-cased desktop
  name or has the lower-cased desktop name as a substring.
\<close>

theorem exclusion_is_bidirectional_substring:
  "fst (is_desktop_excluded env cfg) \<longleftrightarrow>
     (\<exists>d. fst (get_desktop_environment env) = Some d \<and>
        (\<exists>e \<in> set (split_on CHR '','' (excluded_desktops cfg)).
            strip e \<noteq> [] \<and>
            (sublist (lower (strip e)) (lower d) \<or> sublist (lower d) (lower (strip e)))))"
  by (auto simp: is_desktop_excluded_iff excluded_list_def str_in_sublist)

text \<open>
  The two examples of the specification: configured \<open>GNOME\<close> excludes the detected
  \<open>gnome-classic\<close>, and the detected \<open>GNOME-shell\<close> is excluded by configured \<open>gnome\<close>.
\<close>

theorem exclusion_is_bidirectional_substring_witness:
  "fst (is_desktop_excluded [''XDG_CURRENT_DESKTOP'' \<mapsto> ''gnome-classic'']
          (default_config\<lparr>excluded_desktops := ''GNOME''\<rparr>))
   \<and> fst (is_desktop_excluded [''XDG_CURRENT_DESKTOP'' \<mapsto> ''GNOME-shell'']
          (default_config\<lparr>excluded_desktops := ''gnome''\<rparr>))"
proof -
  have d1: "fst (get_desktop_environment [''XDG_CURRENT_DESKTOP'' \<mapsto> ''gnome-classic''])
              = Some ''gnome-classic''"
    by code_simp
  have e1: "''GNOME'' \<in> set (split_on CHR '','' (excluded_desktops
              (default_config\<lparr>excluded_desktops := ''GNOME''\<rparr>)))"
    by code_simp
  have m1: "strip ''GNOME'' \<noteq> [] \<and> sublist (lower (strip ''GNOME'')) (lower ''gnome-classic'')"
    by code_simp
  have d2: "fst (get_desktop_environment [''XDG_CURRENT_DESKTOP'' \<mapsto> ''GNOME-shell''])
              = Some ''GNOME-shell''"
    by code_simp
  have e2: "''gnome'' \<in> set (split_on CHR '','' (excluded_desktops
              (default_config\<lparr>excluded_desktops := ''gnome''\<rparr>)))"
    by code_simp
  have m2: "strip ''gnome'' \<noteq> [] \<and> sublist (lower (strip ''gnome'')) (lower ''GNOME-shell'')"
    by code_simp
  from d1 e1 m1 have "fst (is_desktop_excluded [''XDG_CURRENT_DESKTOP'' \<mapsto> ''gnome-classic'']
          (default_config\<lparr>excluded_desktops := ''GNOME''\<rparr>))"
    unfolding exclusion_is_bidirectional_substring by blast
  moreover from d2 e2 m2 have "fst (is_desktop_excluded [''XDG_CURRENT_DESKTOP'' \<mapsto> ''GNOME-shell'']
          (default_config\<lparr>excluded_desktops := ''gnome''\<rparr>))"
    unfolding exclusion_is_bidirectional_substring by blast
  ultimately show ?thesis by simp
qed

text \<open>
  C10. The empty string is never among the fragments that are matched. When every piece
  of the configured value is empty or blank, nothing is matched against and no desktop is
  excluded, whatever the environment. Adding a blank piece to a configured value leaves
  the fragments as they were.
\<close>

theorem blank_fragments_exclude_nothing:
  "[] \<notin> set (excluded_list cfg)
   \<and> ((\<forall>f \<in> set (split_on CHR '','' (excluded_desktops cfg)). strip f = [])
        \<longrightarrow> excluded_list cfg = [] \<and> (\<forall>env. \<not> fst (is_desktop_excluded env cfg)))
   \<and> (strip b = [] \<longrightarrow>
        excluded_list (cfg\<lparr>excluded_desktops := excluded_desktops cfg @ CHR '','' # b\<rparr>)
          = excluded_list cfg)"
proof (intro conjI impI)
  show "[] \<notin> set (excluded_list cfg)" by (rule excluded_list_nonempty)
next
  assume a: "\<forall>f \<in> set (split_on CHR '','' (excluded_desktops cfg)). strip f = []"
  then show "excluded_list cfg = []" by (rule excluded_list_blank)
  then show "\<forall>env. \<not> fst (is_desktop_excluded env cfg)"
    by (simp add: is_desktop_excluded_iff)
next
  assume b: "strip b = []"
  then have "CHR '','' \<notin> set b"
    using comma_no_space by (auto simp: strip_blank)
  then have "split_on CHR '','' b = [b]" by (rule split_on_absent)
  with b show "excluded_list (cfg\<lparr>excluded_desktops := excluded_desktops cfg @ CHR '','' # b\<rparr>)
                 = excluded_list cfg"
    by (simp add: excluded_list_def split_on_append)
qed

theorem blank_fragments_exclude_nothing_witness:
  "[] \<notin> set (excluded_list (default_config\<lparr>excluded_desktops := '' , ,,''\<rparr>))
   \<and> excluded_list (default_config\<lparr>excluded_desktops := '' , ,,''\<rparr>) = []
   \<and> \<not> fst (is_desktop_excluded [''XDG_CURRENT_DESKTOP'' \<mapsto> ''KDE'']
               (default_config\<lparr>excluded_desktops := '' , ,,''\<rparr>))
   \<and> excluded_list (default_config\<lparr>excluded_desktops := ''kde, ''\<rparr>) = [''kde'']"
proof -
  have h: "\<forall>f \<in> set (split_on CHR '','' (excluded_desktops
              (default_config\<lparr>excluded_desktops := '' , ,,''\<rparr>))). strip f = []"
    by code_simp
  have s: "strip '' '' = []" by code_simp
  have k: "excluded_list (default_config\<lparr>excluded_desktops := ''kde''\<rparr>) = [''kde'']"
    by code_simp
  show ?thesis
    using blank_fragments_exclude_nothing [of "default_config\<lparr>excluded_desktops := '' , ,,''\<rparr>" "[]"]
      blank_fragments_exclude_nothing [of "default_config\<lparr>excluded_desktops := ''kde''\<rparr>" "'' ''"]
      h s k
    by (simp add: default_config_def)
qed

section \<open>The readiness prober\<close>

lemma scan_count: "scan ds n = n + length (filter reports_connected ds)"
  by (induction ds arbitrary: n) (auto simp: reports_connected_def split: sum.splits)

lemma scan_skip:
  "\<not> reports_connected d \<Longrightarrow> scan (ds @ d # ds') n = scan (ds @ ds') n"
  by (simp add: scan_count)

lemma poll_found:
  "\<lbrakk>\<forall>i<n. scan (world (k + i)) 0 = 0; 0 < scan (world (k + n)) 0;
    waited + real n * check_interval < max_wait\<rbrakk>
   \<Longrightarrow> poll_until_ready world k waited =
         (True, concat (replicate n poll_round) @
                [ListDevices, Log DEBUG (DetectedDisplays (scan (world (k + n)) 0)
                                            (waited + real n * check_interval))])"
proof (induction n arbitrary: k waited)
  case 0
  then show ?case by (subst poll_until_ready.simps) simp
next
  case (Suc n)
  have ci: "0 < check_interval" by (simp add: check_interval_def)
  from Suc.prems(3) ci have w: "waited < max_wait"
    by (smt (verit) mult_nonneg_nonneg of_nat_0_le_iff)
  from Suc.prems(1) have z: "scan (world k) 0 = 0" by (metis add.right_neutral zero_less_Suc)
  have ih: "poll_until_ready world (Suc k) (waited + check_interval) =
         (True, concat (replicate n poll_round) @
                [ListDevices, Log DEBUG (DetectedDisplays (scan (world (Suc k + n)) 0)
                                            (waited + check_interval + real n * check_interval))])"
  proof (rule Suc.IH)
    show "\<forall>i<n. scan (world (Suc k + i)) 0 = 0"
      using Suc.prems(1) by (metis Suc_less_eq add_Suc_shift)
    show "0 < scan (world (Suc k + n)) 0" using Suc.prems(2) by simp
    show "waited + check_interval + real n * check_interval < max_wait"
      using Suc.prems(3) by (simp add: algebra_simps)
  qed
  show ?case
    by (subst poll_until_ready.simps, subst ih) (simp add: w z poll_round_def algebra_simps)
qed

lemma poll_timeout:
  "\<lbrakk>\<forall>i<n. scan (world (k + i)) 0 = 0;
    \<forall>i<n. waited + real i * check_interval < max_wait;
    max_wait \<le> waited + real n * check_interval\<rbrakk>
   \<Longrightarrow> poll_until_ready world k waited =
         (True, concat (replicate n poll_round) @
                [Log DEBUG (FinishedWaiting (waited + real n * check_interval))])"
proof (induction n arbitrary: k waited)
  case 0
  then show ?case by (subst poll_until_ready.simps) simp
next
  case (Suc n)
  from Suc.prems(2) have w: "waited < max_wait" by (metis add.right_neutral mult_zero_left of_nat_0 zero_less_Suc)
  from Suc.prems(1) have z: "scan (world k) 0 = 0" by (metis add.right_neutral zero_less_Suc)
  have ih: "poll_until_ready world (Suc k) (waited + check_interval) =
         (True, concat (replicate n poll_round) @
                [Log DEBUG (FinishedWaiting (waited + check_interval + real n * check_interval))])"
  proof (rule Suc.IH)
    show "\<forall>i<n. scan (world (Suc k + i)) 0 = 0"
      using Suc.prems(1) by (metis Suc_less_eq add_Suc_shift)
    show "\<forall>i<n. waited + check_interval + real i * check_interval < max_wait"
    proof (intro allI impI)
      fix i assume "i < n"
      then have "waited + real (Suc i) * check_interval < max_wait"
        using Suc.prems(2) by (simp del: of_nat_Suc)
      then show "waited + check_interval + real i * check_interval < max_wait"
        by (simp add: algebra_simps)
    qed
    show "max_wait \<le> waited + check_interval + real n * check_interval"
      using Suc.prems(3) by (simp add: algebra_simps)
  qed
  show ?case
    by (subst poll_until_ready.simps, subst ih) (simp add: w z poll_round_def algebra_simps)
qed

lemma slept_append: "slept (a @ b) = slept a + slept b"
  by (induction a rule: slept.induct) auto

lemma slept_rounds: "slept (concat (replicate n poll_round)) = real n * check_interval"
  by (induction n) (auto simp: poll_round_def algebra_simps)


lemma wait_found:
  assumes "\<forall>i<n. scan (world i) 0 = 0" and "0 < scan (world n) 0" and "n < 20"
  shows "wait_for_displays_ready world =
           (True, [Log DEBUG WaitingForDisplays, Sleep 1, OpenContext] @
                  concat (replicate n poll_round) @
                  [ListDevices, Log DEBUG (DetectedDisplays (scan (world n) 0)
                                              (1 + real n * check_interval))])"
proof -
  from assms(3) have "real n \<le> 19" by simp
  then have "1 + real n * check_interval < max_wait"
    by (simp add: check_interval_def max_wait_def)
  with assms(1,2) show ?thesis
    using poll_found [of n world 0 1] by (simp add: wait_for_displays_ready_def)
qed

lemma wait_timeout:
  assumes "\<forall>i<20. scan (world i) 0 = 0"
  shows "wait_for_displays_ready world =
           (True, [Log DEBUG WaitingForDisplays, Sleep 1, OpenContext] @
                  concat (replicate 20 poll_round) @
                  [Log DEBUG (FinishedWaiting max_wait)])"
proof -
  have "\<forall>i<20. 1 + real i * check_interval < max_wait"
  proof (intro allI impI)
    fix i :: nat assume "i < 20"
    then have "real i \<le> 19" by simp
    then show "1 + real i * check_interval < max_wait"
      by (simp add: check_interval_def max_wait_def)
  qed
  moreover have "1 + real 20 * check_interval = max_wait"
    by (simp add: check_interval_def max_wait_def)
  ultimately show ?thesis
    using assms poll_timeout [of 20 world 0 1] by (simp add: wait_for_displays_ready_def)
qed

lemma execute_with_wait_trace:
  "snd (execute_with_wait env cfg world sh) =
     snd (wait_for_displays_ready world) @ snd (execute_command env cfg sh)"
  by (cases "execute_command env cfg sh") (simp add: execute_with_wait_def)

lemma wait_for_displays_ready_cases:
  "\<exists>n tl. n \<le> 20
     \<and> wait_for_displays_ready world =
         (True, [Log DEBUG WaitingForDisplays, Sleep 1, OpenContext] @
                concat (replicate n poll_round) @ tl)
     \<and> (\<forall>i<n. scan (world i) 0 = 0)
     \<and> (n < 20 \<longrightarrow> 0 < scan (world n) 0 \<and>
           tl = [ListDevices, Log DEBUG (DetectedDisplays (scan (world n) 0)
                                           (1 + real n * check_interval))])
     \<and> (n = 20 \<longrightarrow> tl = [Log DEBUG (FinishedWaiting max_wait)])
     \<and> slept (snd (wait_for_displays_ready world)) = 1 + real n * check_interval
     \<and> slept (snd (wait_for_displays_ready world)) \<le> max_wait
     \<and> (\<forall>env cfg sh. snd (execute_with_wait env cfg world sh) =
           [Log DEBUG WaitingForDisplays, Sleep 1, OpenContext] @
           concat (replicate n poll_round) @ tl @ snd (execute_command env cfg sh))"
proof (cases "\<exists>k<20. 0 < scan (world k) 0")
  case True
  define n where "n = (LEAST k. k < 20 \<and> 0 < scan (world k) 0)"
  from True have n: "n < 20 \<and> 0 < scan (world n) 0"
    unfolding n_def by (rule LeastI_ex)
  have least: "\<forall>i<n. scan (world i) 0 = 0"
  proof (intro allI impI)
    fix i assume "i < n"
    then have "\<not> (i < 20 \<and> 0 < scan (world i) 0)"
      unfolding n_def by (rule not_less_Least)
    with \<open>i < n\<close> n show "scan (world i) 0 = 0" by simp
  qed
  let ?tl = "[ListDevices, Log DEBUG (DetectedDisplays (scan (world n) 0)
                                           (1 + real n * check_interval))]"
  have w: "wait_for_displays_ready world =
         (True, [Log DEBUG WaitingForDisplays, Sleep 1, OpenContext] @
                concat (replicate n poll_round) @ ?tl)"
    using wait_found [OF least] n by simp
  have "real n \<le> 19" using n by simp
  then have b: "1 + real n * check_interval \<le> max_wait"
    by (simp add: check_interval_def max_wait_def)
  have s: "slept (snd (wait_for_displays_ready world)) = 1 + real n * check_interval"
    by (simp add: w slept_append slept_rounds)
  show ?thesis
    apply (rule exI [of _ n], rule exI [of _ ?tl])
    using n least w s b by (simp add: execute_with_wait_trace)
next
  case False
  then have none: "\<forall>i<20. scan (world i) 0 = 0" by auto
  let ?tl = "[Log DEBUG (FinishedWaiting max_wait)]"
  have w: "wait_for_displays_ready world =
         (True, [Log DEBUG WaitingForDisplays, Sleep 1, OpenContext] @
                concat (replicate 20 poll_round) @ ?tl)"
    using wait_timeout [OF none] by simp
  have s: "slept (snd (wait_for_displays_ready world)) = 1 + real 20 * check_interval"
    by (simp only: w snd_conv slept_append slept_rounds) simp
  have b: "1 + real 20 * check_interval \<le> max_wait"
    by (simp add: check_interval_def max_wait_def)
  show ?thesis
    apply (rule exI [of _ 20], rule exI [of _ ?tl])
    using none w s b by (simp add: execute_with_wait_trace)
qed

text \<open>
  C3. The wait returns \<open>True\<close> for every sequence of connector states. It logs, sleeps
  1 second, opens the context, and then makes \<open>n\<close> polls that see no display, each
  followed by a sleep of 0.2 seconds, with \<open>n\<close> at most 20. Either \<open>n\<close> is below 20 and
  the next poll sees a display, or \<open>n\<close> is 20 and the wait ends with 5 seconds slept.
  The seconds slept are \<open>1 + 0.2 n\<close>, never more than 5. In both cases the callback goes
  on with \<open>_execute_command\<close>.
\<close>

theorem wait_for_displays_ready_returns:
  "\<exists>n tl. n \<le> 20
     \<and> wait_for_displays_ready world =
         (True, [Log DEBUG WaitingForDisplays, Sleep 1, OpenContext] @
                concat (replicate n poll_round) @ tl)
     \<and> (\<forall>i<n. scan (world i) 0 = 0)
     \<and> (n < 20 \<longrightarrow> 0 < scan (world n) 0 \<and>
           tl = [ListDevices, Log DEBUG (DetectedDisplays (scan (world n) 0)
                                           (1 + real n * check_interval))])
     \<and> (n = 20 \<longrightarrow> tl = [Log DEBUG (FinishedWaiting max_wait)])
     \<and> slept (snd (wait_for_displays_ready world)) = 1 + real n * check_interval
     \<and> slept (snd (wait_for_displays_ready world)) \<le> max_wait
     \<and> (\<forall>env cfg sh. snd (execute_with_wait env cfg world sh) =
           [Log DEBUG WaitingForDisplays, Sleep 1, OpenContext] @
           concat (replicate n poll_round) @ tl @ snd (execute_command env cfg sh))"
  by (rule wait_for_displays_ready_cases)

theorem wait_for_displays_ready_returns_witness:
  "wait_for_displays_ready (\<lambda>k. []) =
     (True, [Log DEBUG WaitingForDisplays, Sleep 1, OpenContext] @
            concat (replicate 20 poll_round) @ [Log DEBUG (FinishedWaiting max_wait)])
   \<and> slept (snd (wait_for_displays_ready (\<lambda>k. []))) = 5
   \<and> Spawn ''autorandr -c'' \<in> set (snd (execute_with_wait Map.empty default_config (\<lambda>k. [])
          (\<lambda>cmd. Inr \<lparr>returncode = 0, stdout = [], stderr = []\<rparr>)))"
proof -
  obtain n tl where n: "n \<le> 20"
    and w: "wait_for_displays_ready (\<lambda>k. []) =
         (True, [Log DEBUG WaitingForDisplays, Sleep 1, OpenContext] @
                concat (replicate n poll_round) @ tl)"
    and found: "n < 20 \<longrightarrow> 0 < scan ((\<lambda>k. []) n) 0 \<and>
           tl = [ListDevices, Log DEBUG (DetectedDisplays (scan ((\<lambda>k. []) n) 0)
                                           (1 + real n * check_interval))]"
    and tmo: "n = 20 \<longrightarrow> tl = [Log DEBUG (FinishedWaiting max_wait)]"
    and s: "slept (snd (wait_for_displays_ready (\<lambda>k. []))) = 1 + real n * check_interval"
    and x: "\<forall>env cfg sh. snd (execute_with_wait env cfg (\<lambda>k. []) sh) =
           [Log DEBUG WaitingForDisplays, Sleep 1, OpenContext] @
           concat (replicate n poll_round) @ tl @ snd (execute_command env cfg sh)"
    using wait_for_displays_ready_returns [of "\<lambda>k. []"] by blast
  from found have "\<not> n < 20" by simp
  with n have n20: "n = 20" by simp
  have c: "Spawn ''autorandr -c'' \<in> set (snd (execute_command Map.empty default_config
          (\<lambda>cmd. Inr \<lparr>returncode = 0, stdout = [], stderr = []\<rparr>)))"
    by code_simp
  from n20 w tmo s x c show ?thesis
    by (simp add: check_interval_def)
qed

text \<open>
  C8. The scan returns, for every list of devices, the number of connectors that report
  a display. A device without a status attribute, and a device whose status cannot be
  read, count for nothing and do not stop the scan: the devices after them are counted
  as if they were not there.
\<close>

theorem probe_counts_connected:
  "scan ds 0 = length (filter reports_connected ds)
   \<and> (''status'' \<notin> set (available_attributes d) \<longrightarrow> scan (ds1 @ d # ds2) 0 = scan (ds1 @ ds2) 0)
   \<and> (status_attr d = Inl e \<longrightarrow> scan (ds1 @ d # ds2) 0 = scan (ds1 @ ds2) 0)"
  by (simp add: scan_count reports_connected_def)

theorem probe_counts_connected_witness:
  "scan [\<lparr>action = None, sys_name = ''card0'', device_type = Some ''drm_minor'',
           available_attributes = [''dev'', ''uevent''], status_attr = Inl (OtherException ''KeyError'')\<rparr>,
         \<lparr>action = None, sys_name = ''card0-DP-1'', device_type = None,
           available_attributes = [''enabled'', ''status''], status_attr = Inl (OtherException ''UnicodeDecodeError'')\<rparr>,
         \<lparr>action = None, sys_name = ''card0-HDMI-A-1'', device_type = None,
           available_attributes = [''enabled'', ''status''], status_attr = Inr ''connected''\<rparr>,
         \<lparr>action = None, sys_name = ''card0-eDP-1'', device_type = None,
           available_attributes = [''enabled'', ''status''], status_attr = Inr ''disconnected''\<rparr>] 0 = 1
   \<and> scan ([] @ \<lparr>action = None, sys_name = ''card0'', device_type = Some ''drm_minor'',
           available_attributes = [''dev'', ''uevent''], status_attr = Inl (OtherException ''KeyError'')\<rparr> #
         [\<lparr>action = None, sys_name = ''card0-HDMI-A-1'', device_type = None,
           available_attributes = [''enabled'', ''status''], status_attr = Inr ''connected''\<rparr>]) 0
      = scan ([] @ [\<lparr>action = None, sys_name = ''card0-HDMI-A-1'', device_type = None,
           available_attributes = [''enabled'', ''status''], status_attr = Inr ''connected''\<rparr>]) 0"
proof -
  let ?card = "\<lparr>action = None, sys_name = ''card0'', device_type = Some ''drm_minor'',
           available_attributes = [''dev'', ''uevent''], status_attr = Inl (OtherException ''KeyError'')\<rparr>"
  let ?dp = "\<lparr>action = None, sys_name = ''card0-DP-1'', device_type = None,
           available_attributes = [''enabled'', ''status''], status_attr = Inl (OtherException ''UnicodeDecodeError'')\<rparr>"
  let ?hdmi = "\<lparr>action = None, sys_name = ''card0-HDMI-A-1'', device_type = None,
           available_attributes = [''enabled'', ''status''], status_attr = Inr ''connected''\<rparr>"
  let ?edp = "\<lparr>action = None, sys_name = ''card0-eDP-1'', device_type = None,
           available_attributes = [''enabled'', ''status''], status_attr = Inr ''disconnected''\<rparr>"
  have f: "length (filter reports_connected [?card, ?dp, ?hdmi, ?edp]) = 1"
    by code_simp
  have a: "''status'' \<notin> set (available_attributes ?card)" by simp
  from f a show ?thesis
    using probe_counts_connected [of "[?card, ?dp, ?hdmi, ?edp]" ?card "[]" "[?hdmi]"]
    by simp
qed

section \<open>The action trigger and the monitor\<close>

lemma spawned_append: "spawned (a @ b) = spawned a @ spawned b"
  by (induction a rule: spawned.induct) auto


lemma probes_append: "probes (a @ b) = probes a + probes b"
  by (induction a rule: probes.induct) auto

lemma first_desktop_trace:
  "first_desktop env vars = (r, tr) \<Longrightarrow>
     (r = None \<and> tr = [Log DEBUG NoDesktopDetected]) \<or>
     (\<exists>var d. r = Some d \<and> tr = [Log DEBUG (DetectedDesktop var d)])"
  by (induction vars) (auto simp: Let_def split: if_splits)

lemma match_excluded_trace:
  "match_excluded d dl es = (b, tr) \<Longrightarrow>
     (b \<and> tr = [Log INFO (DesktopExcluded d)]) \<or> (\<not> b \<and> tr = [])"
  by (induction es) (auto split: if_splits)

lemma is_desktop_excluded_trace:
  assumes "is_desktop_excluded env cfg = (b, tr)"
  shows "(b \<and> (\<exists>var d. fst (get_desktop_environment env) = Some d \<and>
                 tr = [Log DEBUG (DetectedDesktop var d), Log INFO (DesktopExcluded d)]))
         \<or> (\<not> b \<and> (\<exists>m. tr = [Log DEBUG m]))"
proof (cases "get_desktop_environment env")
  case (Pair r tr0)
  from first_desktop_trace [of env _ r tr0] Pair
  consider "r = None" "tr0 = [Log DEBUG NoDesktopDetected]"
    | var d where "r = Some d" "tr0 = [Log DEBUG (DetectedDesktop var d)]"
    unfolding get_desktop_environment_def by blast
  then show ?thesis
  proof cases
    case 1
    with Pair assms show ?thesis by (auto simp: is_desktop_excluded_def)
  next
    case 2
    obtain b' tr' where m: "match_excluded d (lower d) (excluded_list cfg) = (b', tr')"
      by (cases "match_excluded d (lower d) (excluded_list cfg)")
    from match_excluded_trace [OF m] 2 Pair assms m show ?thesis
      by (auto simp: is_desktop_excluded_def split: if_splits)
  qed
qed

lemma execute_command_excluded:
  "fst (is_desktop_excluded env cfg) \<Longrightarrow>
     execute_command env cfg sh = (None, snd (is_desktop_excluded env cfg))"
  by (cases "is_desktop_excluded env cfg") (auto simp: execute_command_def)


lemma policy_quiet:
  "spawned (snd (is_desktop_excluded env cfg)) = []
   \<and> probes (snd (is_desktop_excluded env cfg)) = 0
   \<and> slept (snd (is_desktop_excluded env cfg)) = 0
   \<and> logged WARNING (snd (is_desktop_excluded env cfg)) = []
   \<and> logged ERROR (snd (is_desktop_excluded env cfg)) = []"
  using is_desktop_excluded_trace [of env cfg "fst (is_desktop_excluded env cfg)"
          "snd (is_desktop_excluded env cfg)"]
  by auto


lemma rounds_facts:
  "spawned (concat (replicate n poll_round)) = []
   \<and> probes (concat (replicate n poll_round)) = n
   \<and> logged l (concat (replicate n poll_round)) = []"
  by (induction n) (auto simp: poll_round_def)

lemma wait_trace_facts:
  "spawned (snd (wait_for_displays_ready world)) = []
   \<and> 1 \<le> probes (snd (wait_for_displays_ready world))
   \<and> 1 \<le> slept (snd (wait_for_displays_ready world))"
proof -
  obtain n tl where w: "wait_for_displays_ready world =
         (True, [Log DEBUG WaitingForDisplays, Sleep 1, OpenContext] @
                concat (replicate n poll_round) @ tl)"
    and found: "n < 20 \<longrightarrow> 0 < scan (world n) 0 \<and>
           tl = [ListDevices, Log DEBUG (DetectedDisplays (scan (world n) 0)
                                           (1 + real n * check_interval))]"
    and tmo: "n = 20 \<longrightarrow> tl = [Log DEBUG (FinishedWaiting max_wait)]"
    and n: "n \<le> 20"
    and s: "slept (snd (wait_for_displays_ready world)) = 1 + real n * check_interval"
    using wait_for_displays_ready_cases [of world] by blast
  have ci: "0 \<le> real n * check_interval" by (simp add: check_interval_def)
  show ?thesis
  proof (cases "n < 20")
    case True
    with found w s ci show ?thesis
      by (simp add: spawned_append probes_append rounds_facts)
  next
    case False
    with n have "n = 20" by simp
    with tmo w s ci show ?thesis
      by (simp add: spawned_append probes_append rounds_facts)
  qed
qed




lemma kde_excluded: "fst (is_desktop_excluded kde_env kde_config)"
  by code_simp

text \<open>
  C4, as stated, fails: in a KDE session with \<open>kde\<close> excluded, the callback of the
  timer enumerates the devices 20 times and sleeps 5 seconds before the exclusion is
  looked at.
\<close>

theorem expiry_path_probes_before_exclusion:
  "fst (is_desktop_excluded kde_env kde_config)
   \<and> probes (snd (execute_with_wait kde_env kde_config no_displays shell_ok)) = 20
   \<and> slept (snd (execute_with_wait kde_env kde_config no_displays shell_ok)) = 5"
  by code_simp

text \<open>
  C4, amended. When the desktop is excluded, \<open>_execute_command\<close> returns without
  handing the command to the shell, without enumerating the devices and without
  sleeping. The callback of the timer does not run the command either, but it has waited
  for the displays first: at least one enumeration and at least one second of sleep.
\<close>

theorem excluded_expiry_waits_then_skips_command:
  "fst (is_desktop_excluded env cfg) \<longrightarrow>
     execute_command env cfg sh = (None, snd (is_desktop_excluded env cfg))
     \<and> spawned (snd (execute_command env cfg sh)) = []
     \<and> probes (snd (execute_command env cfg sh)) = 0
     \<and> slept (snd (execute_command env cfg sh)) = 0
     \<and> fst (execute_with_wait env cfg world sh) = None
     \<and> spawned (snd (execute_with_wait env cfg world sh)) = []
     \<and> 1 \<le> probes (snd (execute_with_wait env cfg world sh))
     \<and> 1 \<le> slept (snd (execute_with_wait env cfg world sh))"
proof
  assume x: "fst (is_desktop_excluded env cfg)"
  have e: "execute_command env cfg sh = (None, snd (is_desktop_excluded env cfg))"
    using x by (rule execute_command_excluded)
  have f: "fst (execute_with_wait env cfg world sh) = None"
    by (simp add: execute_with_wait_def e)
  show "execute_command env cfg sh = (None, snd (is_desktop_excluded env cfg))
     \<and> spawned (snd (execute_command env cfg sh)) = []
     \<and> probes (snd (execute_command env cfg sh)) = 0
     \<and> slept (snd (execute_command env cfg sh)) = 0
     \<and> fst (execute_with_wait env cfg world sh) = None
     \<and> spawned (snd (execute_with_wait env cfg world sh)) = []
     \<and> 1 \<le> probes (snd (execute_with_wait env cfg world sh))
     \<and> 1 \<le> slept (snd (execute_with_wait env cfg world sh))"
    using f wait_trace_facts [of world]
    by (simp add: e execute_with_wait_trace spawned_append probes_append slept_append policy_quiet)
qed

theorem excluded_expiry_waits_then_skips_command_witness:
  "fst (is_desktop_excluded kde_env kde_config)
   \<and> spawned (snd (execute_command kde_env kde_config shell_ok)) = []
   \<and> probes (snd (execute_command kde_env kde_config shell_ok)) = 0
   \<and> spawned (snd (execute_with_wait kde_env kde_config no_displays shell_ok)) = []
   \<and> 1 \<le> probes (snd (execute_with_wait kde_env kde_config no_displays shell_ok))"
  using kde_excluded
    excluded_expiry_waits_then_skips_command [of kde_env kde_config shell_ok no_displays]
  by blast

text \<open>
  C9. When the desktop is excluded at startup, \<open>monitor()\<close> returns 0 and the process
  exits with the status 0, whatever the netlink channel and the events would have been.
  Its whole trace is one detection of the desktop, one message that it is excluded and
  the exit message: the policy is evaluated once, and neither the udev context nor the
  monitor is opened.
\<close>

theorem excluded_at_startup_exits_cleanly:
  "fst (is_desktop_excluded env cfg) \<longrightarrow>
     (\<exists>var d. fst (get_desktop_environment env) = Some d
        \<and> monitor env cfg channel polls =
            (Return 0,
             [Log DEBUG (DetectedDesktop var d), Log INFO (DesktopExcluded d),
              Log INFO ExcludedExiting],
             init_coordinator))
     \<and> main env cfg channel polls = Some 0
     \<and> OpenContext \<notin> set (fst (snd (monitor env cfg channel polls)))
     \<and> OpenMonitor \<notin> set (fst (snd (monitor env cfg channel polls)))"
proof
  assume x: "fst (is_desktop_excluded env cfg)"
  obtain tr where t: "is_desktop_excluded env cfg = (True, tr)"
    using x by (cases "is_desktop_excluded env cfg") simp
  from is_desktop_excluded_trace [OF t]
  obtain var d where d: "fst (get_desktop_environment env) = Some d"
    and tr: "tr = [Log DEBUG (DetectedDesktop var d), Log INFO (DesktopExcluded d)]"
    by blast
  have m: "monitor env cfg channel polls =
            (Return 0,
             [Log DEBUG (DetectedDesktop var d), Log INFO (DesktopExcluded d),
              Log INFO ExcludedExiting],
             init_coordinator)"
    by (simp add: monitor_def t tr)
  show "(\<exists>var d. fst (get_desktop_environment env) = Some d
        \<and> monitor env cfg channel polls =
            (Return 0,
             [Log DEBUG (DetectedDesktop var d), Log INFO (DesktopExcluded d),
              Log INFO ExcludedExiting],
             init_coordinator))
     \<and> main env cfg channel polls = Some 0
     \<and> OpenContext \<notin> set (fst (snd (monitor env cfg channel polls)))
     \<and> OpenMonitor \<notin> set (fst (snd (monitor env cfg channel polls)))"
    using d m by (auto simp: main_def exit_status_def)
qed

theorem excluded_at_startup_exits_cleanly_witness:
  "fst (is_desktop_excluded kde_env kde_config)
   \<and> main kde_env kde_config None [] = Some 0
   \<and> main kde_env kde_config (Some (OtherException ''OSError'')) [] = Some 0
   \<and> OpenMonitor \<notin> set (fst (snd (monitor kde_env kde_config None [])))"
  using kde_excluded
    excluded_at_startup_exits_cleanly [of kde_env kde_config None "[]"]
    excluded_at_startup_exits_cleanly [of kde_env kde_config "Some (OtherException ''OSError'')" "[]"]
  by simp

lemma debounced_execute_changes: "debounced_execute now cfg c \<noteq> (None, c)"
proof (cases "debounce_delay cfg")
  case None
  then show ?thesis by (simp add: debounced_execute_def)
next
  case (Some delay)
  have "length (timers (start_timer now delay (cancel_pending c))) = Suc (length (timers c))"
    by (simp add: start_timer_def new_timer_def timer_die_def cancel_pending_def timer_cancel_def
             split: option.splits)
  then have "start_timer now delay (cancel_pending c) \<noteq> c" by auto
  with Some show ?thesis by (simp add: debounced_execute_def)
qed

text \<open>
  C7. An event whose action is add, change or remove and whose device is a card or a
  display minor is handed to \<open>_debounced_execute\<close>; any other event leaves the
  coordinator as it was and does nothing. Since \<open>_debounced_execute\<close> never leaves the
  coordinator as it was without raising, the coordinator is touched exactly for the
  events that pass the filter.
\<close>

theorem handle_device_event_filter:
  "(is_display_event d \<longrightarrow> fst (handle_device_event now cfg d c) = debounced_execute now cfg c)
   \<and> (\<not> is_display_event d \<longrightarrow> handle_device_event now cfg d c = ((None, c), []))
   \<and> (fst (handle_device_event now cfg d c) \<noteq> (None, c) \<longleftrightarrow> is_display_event d)"
proof -
  have a: "is_display_event d \<Longrightarrow> fst (handle_device_event now cfg d c) = debounced_execute now cfg c"
    by (auto simp: is_display_event_def handle_device_event_def)
  have b: "\<not> is_display_event d \<Longrightarrow> handle_device_event now cfg d c = ((None, c), [])"
    by (auto simp: is_display_event_def handle_device_event_def split: option.splits)
  from a b debounced_execute_changes [of now cfg c] show ?thesis
    by (cases "is_display_event d") simp_all
qed

theorem handle_device_event_filter_witness:
  "is_display_event hdmi_change
   \<and> fst (handle_device_event 0 default_config hdmi_change init_coordinator)
       = debounced_execute 0 default_config init_coordinator
   \<and> \<not> is_display_event card_bind
   \<and> handle_device_event 0 default_config card_bind init_coordinator
       = ((None, init_coordinator), [])"
proof -
  have a: "is_display_event hdmi_change" by code_simp
  have b: "\<not> is_display_event card_bind" by code_simp
  from a b show ?thesis
    using handle_device_event_filter [of hdmi_change 0 default_config init_coordinator]
      handle_device_event_filter [of card_bind 0 default_config init_coordinator]
    by blast
qed

section \<open>The debounce coordinator\<close>

lemma waiting_Nil_iff: "waiting c = [] \<longleftrightarrow> (\<forall>i<length (timers c). status (timers c ! i) \<noteq> Waiting)"
  by (simp add: waiting_def filter_empty_conv all_set_conv_all_nth)

lemma tidy_waiting_le_1:
  assumes "tidy c"
  shows "length (waiting c) \<le> 1"
proof -
  define S where "S = {i. i < length (timers c) \<and> status (timers c ! i) = Waiting}"
  have len: "length (waiting c) = card S"
    by (simp add: S_def waiting_def length_filter_conv_card)
  have "card S \<le> 1"
  proof (cases "debounce_timer c")
    case None
    with assms have "S = {}" by (auto simp: S_def tidy_def)
    then show ?thesis by simp
  next
    case (Some j)
    with assms have "S \<subseteq> {j}" by (auto simp: S_def tidy_def)
    then have "card S \<le> card {j}" by (intro card_mono) auto
    then show ?thesis by simp
  qed
  with len show ?thesis by simp
qed

lemma cancel_pending_clears:
  assumes "tidy c"
  shows "waiting (cancel_pending c) = []"
proof (cases "debounce_timer c")
  case None
  with assms show ?thesis
    by (auto simp: waiting_Nil_iff cancel_pending_def tidy_def)
next
  case (Some j)
  with assms show ?thesis
    by (auto simp: waiting_Nil_iff cancel_pending_def timer_cancel_def tidy_def nth_list_update)
qed

lemma cancel_pending_fields:
  "length (timers (cancel_pending c)) = length (timers c)
   \<and> debounce_timer (cancel_pending c) = debounce_timer c"
  by (simp add: cancel_pending_def timer_cancel_def split: option.splits)

lemma filter_update_irrelevant:
  assumes "i < length xs" and "\<not> P (xs ! i)" and "\<not> P y"
  shows "filter P (xs[i := y]) = filter P xs"
proof -
  have "filter P (xs[i := y]) = filter P (take i xs @ y # drop (Suc i) xs)"
    using assms(1) by (simp add: upd_conv_take_nth_drop)
  also have "\<dots> = filter P (take i xs @ xs ! i # drop (Suc i) xs)"
    using assms(2,3) by simp
  also have "\<dots> = filter P xs"
    using assms(1) by (simp add: id_take_nth_drop [symmetric])
  finally show ?thesis .
qed

lemma cancel_pending_attempts: "attempts (cancel_pending c) = attempts c"
  by (auto simp: attempts_def cancel_pending_def timer_cancel_def filter_update_irrelevant
           split: option.splits)

lemma new_timer_facts:
  "waiting (new_timer now delay c)
     = waiting c @ [\<lparr>deadline = now + max 0 delay, status = Waiting, callback = ExecuteWithWait\<rparr>]
   \<and> attempts (new_timer now delay c) = attempts c"
  by (simp add: waiting_def attempts_def new_timer_def)

lemma new_timer_tidy: "waiting c = [] \<Longrightarrow> tidy (new_timer now delay c)"
  by (auto simp: waiting_Nil_iff tidy_def new_timer_def nth_append)

lemma timer_die_tidy: "tidy c \<Longrightarrow> tidy (timer_die i c)"
  by (auto simp: tidy_def timer_die_def nth_list_update)

lemma timer_die_clear: "waiting c = [] \<Longrightarrow> waiting (timer_die i c) = []"
  by (auto simp: waiting_Nil_iff timer_die_def)

lemma timer_die_attempts: "attempts (timer_die i c) = attempts c"
  by (auto simp: attempts_def timer_die_def filter_update_irrelevant)

lemma timer_die_new:
  "waiting c = [] \<Longrightarrow> waiting (timer_die (length (timers c)) (new_timer now delay c)) = []"
  by (auto simp: waiting_Nil_iff timer_die_def new_timer_def nth_append nth_list_update)

lemma start_timer_tidy: "waiting c = [] \<Longrightarrow> tidy (start_timer now delay c)"
  by (simp add: start_timer_def new_timer_tidy timer_die_tidy)

lemma start_timer_attempts: "attempts (start_timer now delay c) = attempts c"
  by (simp add: start_timer_def new_timer_facts timer_die_attempts)

lemma start_timer_waiting:
  "waiting c = [] \<Longrightarrow>
     waiting (start_timer now delay c)
       = (if delay \<le> timeout_max
          then [\<lparr>deadline = now + max 0 delay, status = Waiting, callback = ExecuteWithWait\<rparr>]
          else [])"
  by (simp add: start_timer_def new_timer_facts timer_die_new)

lemma timer_fire_tidy: "tidy c \<Longrightarrow> tidy (timer_fire i c)"
  by (auto simp: tidy_def timer_fire_def nth_list_update)

lemma timer_fire_clear: "waiting c = [] \<Longrightarrow> waiting (timer_fire i c) = []"
  by (auto simp: waiting_Nil_iff timer_fire_def)

lemma reachable_tidy:
  "reachable cfg s \<Longrightarrow> tidy (snd s) \<and> (fst s \<longrightarrow> waiting (snd s) = [])"
proof (induction rule: reachable.induct)
  case start
  show ?case by (simp add: tidy_def init_coordinator_def)
next
  case (cancel c)
  then have t: "tidy c" by simp
  have w: "waiting (cancel_pending c) = []" using t by (rule cancel_pending_clears)
  then have "tidy (cancel_pending c)" by (simp add: waiting_Nil_iff tidy_def)
  with w show ?case by simp
next
  case (arm c delay now)
  then show ?case by (simp add: new_timer_tidy)
next
  case (fire b c i)
  then show ?case by (simp add: timer_fire_tidy timer_fire_clear)
next
  case (die b c i)
  then show ?case by (simp add: timer_die_tidy timer_die_clear)
qed


lemma debounced_execute_waiting:
  assumes "tidy c" and "debounce_delay cfg = Some delay"
  shows "debounced_execute now cfg c = (None, start_timer now delay (cancel_pending c))
         \<and> waiting (start_timer now delay (cancel_pending c))
             = (if delay \<le> timeout_max
                then [\<lparr>deadline = now + max 0 delay, status = Waiting, callback = ExecuteWithWait\<rparr>]
                else [])
         \<and> attempts (start_timer now delay (cancel_pending c)) = attempts c
         \<and> tidy (start_timer now delay (cancel_pending c))"
  using assms cancel_pending_clears [OF assms(1)]
  by (simp add: debounced_execute_def start_timer_waiting start_timer_attempts
        cancel_pending_attempts start_timer_tidy)

text \<open>
  C2. In every state the threads can reach, however the handling of events, the firing
  of timers and the death of timer threads interleave, at most one timer is waiting, and
  it is the one \<open>debounce_timer\<close> refers to. Between the cancellation and the start of
  the new timer inside \<open>_debounced_execute\<close> no timer is waiting; after the cancellation
  none is, and after the whole call the only timer that waits is the new one (it waits
  unless its interval is above \<open>threading.TIMEOUT_MAX\<close>).
\<close>

theorem at_most_one_waiting_timer:
  "reachable cfg (b, c) \<Longrightarrow>
     length (waiting c) \<le> 1
     \<and> (\<forall>i<length (timers c). status (timers c ! i) = Waiting \<longrightarrow> debounce_timer c = Some i)
     \<and> (b \<longrightarrow> waiting c = [])
     \<and> waiting (cancel_pending c) = []
     \<and> (\<forall>now delay. debounce_delay cfg = Some delay \<longrightarrow>
           length (waiting (snd (debounced_execute now cfg c))) \<le> 1
           \<and> set (waiting (snd (debounced_execute now cfg c)))
               \<subseteq> {\<lparr>deadline = now + max 0 delay, status = Waiting, callback = ExecuteWithWait\<rparr>}
           \<and> (delay \<le> timeout_max \<longrightarrow>
                 waiting (snd (debounced_execute now cfg c))
                   = [\<lparr>deadline = now + max 0 delay, status = Waiting,
                       callback = ExecuteWithWait\<rparr>]))"
proof -
  assume r: "reachable cfg (b, c)"
  from reachable_tidy [OF r] have t: "tidy c" and w: "b \<longrightarrow> waiting c = []" by simp_all
  from t have i: "\<forall>i<length (timers c). status (timers c ! i) = Waiting \<longrightarrow> debounce_timer c = Some i"
    by (simp add: tidy_def)
  have d: "\<forall>now delay. debounce_delay cfg = Some delay \<longrightarrow>
           length (waiting (snd (debounced_execute now cfg c))) \<le> 1
           \<and> set (waiting (snd (debounced_execute now cfg c)))
               \<subseteq> {\<lparr>deadline = now + max 0 delay, status = Waiting, callback = ExecuteWithWait\<rparr>}
           \<and> (delay \<le> timeout_max \<longrightarrow>
                 waiting (snd (debounced_execute now cfg c))
                   = [\<lparr>deadline = now + max 0 delay, status = Waiting,
                       callback = ExecuteWithWait\<rparr>])"
    using debounced_execute_waiting [OF t] by simp
  from tidy_waiting_le_1 [OF t] i w cancel_pending_clears [OF t] d show ?thesis
    by blast
qed

theorem at_most_one_waiting_timer_witness:
  "reachable default_config
     (False, new_timer 1 2 (cancel_pending (new_timer 0 2 (cancel_pending init_coordinator))))
   \<and> length (waiting (new_timer 1 2 (cancel_pending (new_timer 0 2
         (cancel_pending init_coordinator))))) \<le> 1
   \<and> waiting (snd (debounced_execute 1 default_config
         (new_timer 0 2 (cancel_pending init_coordinator))))
       = [\<lparr>deadline = 3, status = Waiting, callback = ExecuteWithWait\<rparr>]"
proof -
  have d: "debounce_delay default_config = Some 2"
    by (simp add: default_config_def)
  have l: "(2::real) \<le> timeout_max" by (simp add: timeout_max_def)
  have r1: "reachable default_config (False, new_timer 0 2 (cancel_pending init_coordinator))"
    by (rule reachable.arm [OF reachable.cancel [OF reachable.start] d])
  have r2: "reachable default_config
     (False, new_timer 1 2 (cancel_pending (new_timer 0 2 (cancel_pending init_coordinator))))"
    by (rule reachable.arm [OF reachable.cancel [OF r1] d])
  from at_most_one_waiting_timer [OF r1] d l
  have "waiting (snd (debounced_execute 1 default_config
          (new_timer 0 2 (cancel_pending init_coordinator))))
         = [\<lparr>deadline = 1 + max 0 2, status = Waiting, callback = ExecuteWithWait\<rparr>]"
    by blast
  with r2 at_most_one_waiting_timer [OF r2] show ?thesis
    by simp
qed



lemma quiesce_idle: "waiting c = [] \<Longrightarrow> quiesce c = c"
proof -
  assume "waiting c = []"
  then have "map (\<lambda>x. if status x = Waiting then x\<lparr>status := Fired\<rparr> else x) (timers c) = timers c"
    by (intro map_idI) (simp add: waiting_def filter_empty_conv)
  then show ?thesis by (simp add: quiesce_def)
qed





lemma map_prefix_nth: "n < length xs \<Longrightarrow> (map f (take n xs) @ drop n xs) ! n = xs ! n"
  by (simp add: nth_append)

lemma map_prefix_step:
  assumes "n < length xs"
  shows "map f (take (Suc n) xs) @ drop (Suc n) xs
           = (map f (take n xs) @ drop n xs)[n := f (xs ! n)]"
proof -
  have d: "drop n xs = xs ! n # drop (Suc n) xs"
    using assms by (rule Cons_nth_drop_Suc [symmetric])
  have "(map f (take n xs) @ drop n xs)[n := f (xs ! n)]
          = map f (take n xs) @ (drop n xs)[0 := f (xs ! n)]"
    using assms by (simp add: list_update_append)
  also have "\<dots> = map f (take n xs) @ f (xs ! n) # drop (Suc n) xs"
    by (subst d) simp
  also have "\<dots> = map f (take (Suc n) xs) @ drop (Suc n) xs"
    using assms by (simp add: take_Suc_conv_app_nth)
  finally show ?thesis by simp
qed

lemma reachable_advance:
  assumes r: "reachable cfg (b, c)"
  shows "reachable cfg (b, advance t c)"
proof -
  define f :: "timer \<Rightarrow> timer"
    where "f tm = (if status tm = Waiting \<and> deadline tm \<le> t then tm\<lparr>status := Fired\<rparr> else tm)" for tm
  define xs where "xs = timers c"
  define part where "part n = c\<lparr>timers := map f (take n xs) @ drop n xs\<rparr>" for n
  have tp: "timers (part n) = map f (take n xs) @ drop n xs" for n
    by (simp add: part_def)
  have "n \<le> length xs \<Longrightarrow> reachable cfg (b, part n)" for n
  proof (induction n)
    case 0
    with r show ?case by (simp add: part_def xs_def)
  next
    case (Suc n)
    then have n: "n < length xs" and rn: "reachable cfg (b, part n)" by simp_all
    have at_n: "timers (part n) ! n = xs ! n"
      unfolding tp using n by (rule map_prefix_nth)
    have inb: "n < length (timers (part n))"
      unfolding tp using n by simp
    have nxt: "part (Suc n) = part n\<lparr>timers := (timers (part n))[n := f (xs ! n)]\<rparr>"
      unfolding tp using map_prefix_step [OF n, of f] by (simp add: part_def)
    show ?case
    proof (cases "status (xs ! n) = Waiting \<and> deadline (xs ! n) \<le> t")
      case True
      then have "f (xs ! n) = (timers (part n) ! n)\<lparr>status := Fired\<rparr>"
        by (simp add: f_def at_n)
      with True inb at_n have "part (Suc n) = timer_fire n (part n)"
        by (simp add: nxt timer_fire_def)
      moreover have "reachable cfg (b, timer_fire n (part n))"
        using rn inb True at_n by (intro reachable.fire) simp_all
      ultimately show ?thesis by simp
    next
      case False
      then have "f (xs ! n) = timers (part n) ! n"
        by (auto simp: f_def at_n)
      then have "part (Suc n) = part n"
        by (simp add: nxt)
      with rn show ?thesis by simp
    qed
  qed
  from this [of "length xs"] have "reachable cfg (b, part (length xs))" by simp
  moreover have "part (length xs) = advance t c"
    by (simp add: part_def advance_def xs_def f_def [abs_def])
  ultimately show ?thesis by simp
qed

lemma reachable_run_events:
  "reachable cfg (False, c) \<Longrightarrow> reachable cfg (False, run_events cfg ts c)
                                \<or> reachable cfg (True, run_events cfg ts c)"
proof (induction ts arbitrary: c)
  case Nil
  then show ?case by simp
next
  case (Cons t ts)
  have a: "reachable cfg (False, advance t c)" using Cons.prems by (rule reachable_advance)
  then have k: "reachable cfg (True, cancel_pending (advance t c))" by (rule reachable.cancel)
  show ?case
  proof (cases "debounce_delay cfg")
    case None
    with k show ?thesis by (simp add: debounced_execute_def)
  next
    case (Some delay)
    have n: "reachable cfg (False, new_timer t delay (cancel_pending (advance t c)))"
      using k Some by (rule reachable.arm)
    have "reachable cfg (False, start_timer t delay (cancel_pending (advance t c)))"
    proof (cases "timeout_max < delay")
      case True
      have "reachable cfg (False, timer_die (length (timers (cancel_pending (advance t c))))
                                    (new_timer t delay (cancel_pending (advance t c))))"
        using n by (rule reachable.die) (simp_all add: new_timer_def)
      with True show ?thesis by (simp add: start_timer_def)
    next
      case False
      with n show ?thesis by (simp add: start_timer_def)
    qed
    from Cons.IH [OF this] Some show ?thesis by (simp add: debounced_execute_def)
  qed
qed

lemma timed_run_at_most_one_waiting:
  "length (waiting (run_events cfg ts init_coordinator)) \<le> 1"
proof -
  from reachable_run_events [OF reachable.start, of cfg ts]
  obtain b where "reachable cfg (b, run_events cfg ts init_coordinator)" by blast
  from reachable_tidy [OF this] have "tidy (run_events cfg ts init_coordinator)" by simp
  then show ?thesis by (rule tidy_waiting_le_1)
qed

end
